theory Spec2Isabelle
  imports Main "HOL-Library.Word" "HOL-Library.Multiset"
begin

section \<open>Values of the program\<close>

text \<open>
  The records come out of \<^verbatim>\<open>requests.Response.json()\<close>, so a field of a record is any
  JSON value as Python holds it: \<^verbatim>\<open>None\<close>, a \<^verbatim>\<open>bool\<close>, an \<^verbatim>\<open>int\<close>, a \<^verbatim>\<open>float\<close>, a
  \<^verbatim>\<open>str\<close>, a \<^verbatim>\<open>list\<close> or a \<^verbatim>\<open>dict\<close>. A float is kept as its IEEE-754 binary64 bit
  pattern. A dict is an association list in which the first binding of a key is the
  binding of that key. Strings are lists of 8-bit characters: the model covers ASCII text.
\<close>

datatype json =
    JNull
  | JBool bool
  | JInt int
  | JFloat "64 word"
  | JStr string
  | JList "json list"
  | JDict "(string \<times> json) list"

type_synonym pydict = "(string \<times> json) list"

text \<open>The exceptions that the modelled code can raise.\<close>

datatype py_error = AttributeError | TypeError | OverflowError

text \<open>Python truth value testing, as used by \<^verbatim>\<open>not x\<close> and \<^verbatim>\<open>x or y\<close>. A float is false
  exactly when it is \<^verbatim>\<open>0.0\<close> or \<^verbatim>\<open>-0.0\<close>: every bit below the sign bit is clear.\<close>

fun truthy :: "json \<Rightarrow> bool" where
  "truthy JNull = False"
| "truthy (JBool b) = b"
| "truthy (JInt i) = (i \<noteq> 0)"
| "truthy (JFloat w) = (take_bit 63 w \<noteq> 0)"
| "truthy (JStr s) = (s \<noteq> [])"
| "truthy (JList xs) = (xs \<noteq> [])"
| "truthy (JDict kvs) = (kvs \<noteq> [])"

definition py_or :: "json \<Rightarrow> json \<Rightarrow> json" where
  "py_or a b = (if truthy a then a else b)"

text \<open>\<^verbatim>\<open>rec.get(k)\<close> and \<^verbatim>\<open>rec.get(k, d)\<close>.\<close>

definition dict_get_default :: "pydict \<Rightarrow> string \<Rightarrow> json \<Rightarrow> json" where
  "dict_get_default d k dflt = (case map_of d k of None \<Rightarrow> dflt | Some v \<Rightarrow> v)"

definition dict_get :: "pydict \<Rightarrow> string \<Rightarrow> json" where
  "dict_get d k = dict_get_default d k JNull"

text \<open>\<^verbatim>\<open>d[k] = v\<close>: an existing key keeps its position, a new key goes to the end.\<close>

fun dict_set :: "pydict \<Rightarrow> string \<Rightarrow> json \<Rightarrow> pydict" where
  "dict_set [] k v = [(k, v)]"
| "dict_set ((k', v') # d) k v = (if k' = k then (k, v) # d else (k', v') # dict_set d k v)"

section \<open>String methods\<close>

text \<open>\<^verbatim>\<open>str.isspace\<close> on one ASCII character: tab, line feed, vertical tab, form feed,
  carriage return, the four separators 0x1c to 0x1f, and the space.\<close>

definition py_isspace :: "char \<Rightarrow> bool" where
  "py_isspace c = (let n = of_char c :: nat in (9 \<le> n \<and> n \<le> 13) \<or> (28 \<le> n \<and> n \<le> 32))"

definition py_strip :: "string \<Rightarrow> string" where
  "py_strip s = rev (dropWhile py_isspace (rev (dropWhile py_isspace s)))"

text \<open>\<^verbatim>\<open>s.rstrip(c)\<close> for a one-character argument: every trailing \<^verbatim>\<open>c\<close> goes.\<close>

definition py_rstrip_chr :: "char \<Rightarrow> string \<Rightarrow> string" where
  "py_rstrip_chr c s = rev (dropWhile (\<lambda>x. x = c) (rev s))"

text \<open>\<^verbatim>\<open>s.split(c)\<close> for a one-character separator. The result is never empty.\<close>

fun py_split_chr :: "char \<Rightarrow> string \<Rightarrow> string list" where
  "py_split_chr c [] = [[]]"
| "py_split_chr c (x # xs) =
     (if x = c then [] # py_split_chr c xs
      else (case py_split_chr c xs of
              [] \<Rightarrow> [[x]]
            | w # ws \<Rightarrow> (x # w) # ws))"

text \<open>\<^verbatim>\<open>s.upper()\<close> on ASCII text.\<close>

definition py_upper_chr :: "char \<Rightarrow> char" where
  "py_upper_chr c =
     (let n = of_char c :: nat in if 97 \<le> n \<and> n \<le> 122 then char_of (n - 32) else c)"

definition py_upper :: "string \<Rightarrow> string" where
  "py_upper s = map py_upper_chr s"

definition py_endswith_chr :: "string \<Rightarrow> char \<Rightarrow> bool" where
  "py_endswith_chr s c = (s \<noteq> [] \<and> last s = c)"

text \<open>\<^verbatim>\<open>sep.join(xs)\<close>.\<close>

fun py_join :: "string \<Rightarrow> string list \<Rightarrow> string" where
  "py_join sep [] = []"
| "py_join sep [x] = x"
| "py_join sep (x # y # ys) = x @ sep @ py_join sep (y # ys)"

section \<open>Datetimes and the standard library\<close>

text \<open>
  An instant is a number of microseconds since 0001-01-01T00:00:00 UTC. A
  \<^verbatim>\<open>datetime\<close> object is naive (wall-clock microseconds) or aware (wall-clock
  microseconds and the UTC offset in microseconds). \<^verbatim>\<open>datetime.max\<close> is
  9999-12-31T23:59:59.999999, the last microsecond of day 3652059.
\<close>

type_synonym instant = int

datatype pydatetime = Naive int | Aware int int

definition dt_max :: instant where
  "dt_max = 3652059 * 86400000000 - 1"

definition in_range :: "int \<Rightarrow> bool" where
  "in_range t = (0 \<le> t \<and> t \<le> dt_max)"

text \<open>
  The parsers of the standard library and \<^verbatim>\<open>repr\<close> are not part of the repository; the
  model takes them as parameters. \<open>None\<close> stands for the \<^verbatim>\<open>ValueError\<close> of a parser.
  \<^verbatim>\<open>datetime.strptime(s, f)\<close> gives a naive datetime. A \<^verbatim>\<open>datetime\<close> object always lies
  between \<^verbatim>\<open>datetime.min\<close> and \<^verbatim>\<open>datetime.max\<close>; the wall-clock values that the
  parsers return stand for such objects.
\<close>

record stdlib =
  lib_fromisoformat :: "string \<Rightarrow> pydatetime option"
  lib_strptime :: "string \<Rightarrow> string \<Rightarrow> int option"
  lib_repr :: "json \<Rightarrow> string"

section \<open>parse_date\<close>

text \<open>The body of the first \<^verbatim>\<open>try\<close> after the rewrite of a trailing Z: parse, then
  take a naive result as UTC or convert an aware one to UTC. \<^verbatim>\<open>astimezone\<close> raises
  \<^verbatim>\<open>OverflowError\<close> when the UTC value leaves the range of \<^verbatim>\<open>datetime\<close>; like the
  \<^verbatim>\<open>ValueError\<close> of the parser it is caught by \<^verbatim>\<open>except Exception\<close>.\<close>

definition iso_attempt :: "stdlib \<Rightarrow> string \<Rightarrow> instant option" where
  "iso_attempt lib s =
     (case lib_fromisoformat lib s of
        None \<Rightarrow> None
      | Some (Naive t) \<Rightarrow> Some t
      | Some (Aware t off) \<Rightarrow> (if in_range (t - off) then Some (t - off) else None))"

definition fmts :: "string list" where
  "fmts = [''%Y-%m-%d %H:%M:%S.%f'', ''%Y-%m-%d %H:%M:%S'', ''%Y-%m-%d'']"

text \<open>The \<^verbatim>\<open>for f in fmts\<close> loop: the first format that parses wins.\<close>

fun try_formats :: "stdlib \<Rightarrow> string \<Rightarrow> string list \<Rightarrow> instant option" where
  "try_formats lib s [] = None"
| "try_formats lib s (f # fs) =
     (case lib_strptime lib s f of
        Some t \<Rightarrow> Some t
      | None \<Rightarrow> try_formats lib s fs)"

text \<open>The string that reaches the parsers: stripped, a trailing Z replaced.\<close>

definition replace_z :: "string \<Rightarrow> string" where
  "replace_z s = (if py_endswith_chr s (CHR ''Z'') then butlast s @ ''+00:00'' else s)"

text \<open>\<^verbatim>\<open>parse_date\<close>. The argument is whatever the caller read from the record; a true
  value that is not a string has no \<^verbatim>\<open>strip\<close> method, and that call is outside the
  \<^verbatim>\<open>try\<close>.\<close>

definition parse_date :: "stdlib \<Rightarrow> json \<Rightarrow> py_error + instant option" where
  "parse_date lib v =
     (if \<not> truthy v then Inr None
      else (case v of
              JStr s0 \<Rightarrow>
                (let s = replace_z (py_strip s0) in
                 case iso_attempt lib s of
                   Some t \<Rightarrow> Inr (Some t)
                 | None \<Rightarrow> Inr (try_formats lib s fmts))
            | _ \<Rightarrow> Inl AttributeError))"

section \<open>extract_id_from_detail_url\<close>

text \<open>A false value gives the empty string at once. A string is stripped of its
  trailing slashes and split at the slashes, and the last piece is the result. Any
  other value has no \<^verbatim>\<open>rstrip\<close>: the \<^verbatim>\<open>AttributeError\<close> is caught and the result is
  empty, as it would be for the \<^verbatim>\<open>IndexError\<close> of an empty list of pieces.\<close>

definition extract_id_from_detail_url :: "json \<Rightarrow> string" where
  "extract_id_from_detail_url url =
     (if \<not> truthy url then []
      else (case url of
              JStr s \<Rightarrow>
                (case py_split_chr (CHR ''/'') (py_rstrip_chr (CHR ''/'') s) of
                   [] \<Rightarrow> []
                 | w # ws \<Rightarrow> last (w # ws))
            | _ \<Rightarrow> []))"

section \<open>flatten_record\<close>

definition CSV_FIELDS :: "string list" where
  "CSV_FIELDS =
     [''id_base64'', ''victim'', ''domain'', ''country'', ''group'', ''activity'',
      ''attackdate'', ''discovered'', ''description'', ''claim_url'', ''detail_url'',
      ''screenshot_url'', ''press_urls'', ''duplicates_count'']"

text \<open>\<^verbatim>\<open>len(x)\<close>: strings, lists and dicts have a length, the other values raise
  \<^verbatim>\<open>TypeError\<close>. The length of a dict is the number of its keys.\<close>

fun py_len :: "json \<Rightarrow> py_error + nat" where
  "py_len (JStr s) = Inr (length s)"
| "py_len (JList xs) = Inr (length xs)"
| "py_len (JDict kvs) = Inr (length (remdups (map fst kvs)))"
| "py_len _ = Inl TypeError"

text \<open>Decimal digits of a natural number, and \<^verbatim>\<open>str\<close> of an \<^verbatim>\<open>int\<close>.\<close>

fun digits_of :: "nat \<Rightarrow> string" where
  "digits_of n =
     (if n < 10 then [char_of (48 + n)]
      else digits_of (n div 10) @ [char_of (48 + n mod 10)])"

definition str_of_int :: "int \<Rightarrow> string" where
  "str_of_int i = (if i < 0 then CHR ''-'' # digits_of (nat (- i)) else digits_of (nat i))"

text \<open>\<^verbatim>\<open>str(v)\<close>. For a float, a list and a dict it is \<^verbatim>\<open>repr(v)\<close>, which the library
  parameter supplies.\<close>

fun py_str :: "stdlib \<Rightarrow> json \<Rightarrow> string" where
  "py_str lib JNull = ''None''"
| "py_str lib (JBool b) = (if b then ''True'' else ''False'')"
| "py_str lib (JInt i) = str_of_int i"
| "py_str lib (JStr s) = s"
| "py_str lib v = lib_repr lib v"

text \<open>\<^verbatim>\<open>[p for p in press if isinstance(p, str)]\<close>.\<close>

fun str_elems :: "json list \<Rightarrow> string list" where
  "str_elems [] = []"
| "str_elems (JStr s # ps) = s # str_elems ps"
| "str_elems (p # ps) = str_elems ps"

text \<open>The value stored under \<^verbatim>\<open>press_urls\<close>: the three branches on \<^verbatim>\<open>press\<close>.\<close>

definition press_urls :: "stdlib \<Rightarrow> json \<Rightarrow> json" where
  "press_urls lib press =
     (if press = JNull then JStr []
      else (case press of
              JList ps \<Rightarrow> JStr (py_join ''|'' (str_elems ps))
            | _ \<Rightarrow> JStr (py_str lib press)))"

text \<open>\<^verbatim>\<open>flatten_record\<close>: thirteen assignments that cannot fail, then the count of the
  duplicates, where \<^verbatim>\<open>len\<close> can raise.\<close>

definition flatten_record :: "stdlib \<Rightarrow> pydict \<Rightarrow> py_error + pydict" where
  "flatten_record lib rec =
     (let out = [];
          out = dict_set out ''id_base64''
                  (JStr (extract_id_from_detail_url
                           (py_or (dict_get_default rec ''url'' (JStr [])) (JStr []))));
          out = dict_set out ''victim'' (py_or (dict_get rec ''victim'') (JStr []));
          out = dict_set out ''domain'' (py_or (dict_get rec ''domain'') (JStr []));
          out = dict_set out ''country'' (py_or (dict_get rec ''country'') (JStr []));
          out = dict_set out ''group'' (py_or (dict_get rec ''group'') (JStr []));
          out = dict_set out ''activity'' (py_or (dict_get rec ''activity'') (JStr []));
          out = dict_set out ''attackdate'' (py_or (dict_get rec ''attackdate'') (JStr []));
          out = dict_set out ''discovered'' (py_or (dict_get rec ''discovered'') (JStr []));
          out = dict_set out ''description'' (py_or (dict_get rec ''description'') (JStr []));
          out = dict_set out ''claim_url'' (py_or (dict_get rec ''claim_url'') (JStr []));
          out = dict_set out ''detail_url'' (py_or (dict_get rec ''url'') (JStr []));
          out = dict_set out ''screenshot_url'' (py_or (dict_get rec ''screenshot'') (JStr []));
          out = dict_set out ''press_urls'' (press_urls lib (dict_get rec ''press''))
      in case py_len (py_or (dict_get_default rec ''duplicates'' (JList [])) (JList [])) of
           Inl e \<Rightarrow> Inl e
         | Inr n \<Rightarrow> Inr (dict_set out ''duplicates_count'' (JInt (int n))))"

section \<open>The filter and the sort of main\<close>

text \<open>\<^verbatim>\<open>datetime.now(timezone.utc) - timedelta(days=args.days)\<close>. A \<^verbatim>\<open>timedelta\<close> holds at
  most 999999999 days either way, and the difference must be a \<^verbatim>\<open>datetime\<close>.\<close>

definition cutoff_of :: "instant \<Rightarrow> int \<Rightarrow> py_error + instant" where
  "cutoff_of now days =
     (if days < - 999999999 \<or> 999999999 < days then Inl OverflowError
      else (let c = now - days * 86400000000
            in if in_range c then Inr c else Inl OverflowError))"

definition US_COUNTRIES :: "string list" where
  "US_COUNTRIES = [''US'', ''UNITED STATES'', ''USA'']"

text \<open>\<^verbatim>\<open>(rec.get("country") or "").upper()\<close>: only a string has \<^verbatim>\<open>upper\<close>.\<close>

definition country_of :: "pydict \<Rightarrow> py_error + string" where
  "country_of rec =
     (case py_or (dict_get rec ''country'') (JStr []) of
        JStr s \<Rightarrow> Inr (py_upper s)
      | _ \<Rightarrow> Inl AttributeError)"

text \<open>\<^verbatim>\<open>rec.get("discovered") or rec.get("attackdate") or rec.get("date")\<close>.\<close>

definition date_s :: "pydict \<Rightarrow> json" where
  "date_s rec =
     py_or (py_or (dict_get rec ''discovered'') (dict_get rec ''attackdate''))
           (dict_get rec ''date'')"

text \<open>One pass of the loop body: \<open>Inr True\<close> when the record is appended, \<open>Inr False\<close>
  at a \<^verbatim>\<open>continue\<close>, \<open>Inl\<close> when an exception leaves the loop.\<close>

definition keep_record :: "stdlib \<Rightarrow> instant \<Rightarrow> pydict \<Rightarrow> py_error + bool" where
  "keep_record lib cutoff rec =
     (case country_of rec of
        Inl e \<Rightarrow> Inl e
      | Inr country \<Rightarrow>
          if country \<notin> set US_COUNTRIES then Inr False
          else (case parse_date lib (date_s rec) of
                  Inl e \<Rightarrow> Inl e
                | Inr None \<Rightarrow> Inr False
                | Inr (Some dt) \<Rightarrow> if dt < cutoff then Inr False else Inr True))"

text \<open>The loop over the fetched list. An element that is not a dict has no \<^verbatim>\<open>get\<close>.\<close>

fun filter_loop :: "stdlib \<Rightarrow> instant \<Rightarrow> pydict list \<Rightarrow> json list \<Rightarrow> py_error + pydict list" where
  "filter_loop lib cutoff filtered [] = Inr filtered"
| "filter_loop lib cutoff filtered (r # rs) =
     (case r of
        JDict rec \<Rightarrow>
          (case keep_record lib cutoff rec of
             Inl e \<Rightarrow> Inl e
           | Inr keep \<Rightarrow> filter_loop lib cutoff (if keep then filtered @ [rec] else filtered) rs)
      | _ \<Rightarrow> Inl AttributeError)"

text \<open>The key of the sort:
  \<^verbatim>\<open>parse_date(r.get("discovered") or r.get("attackdate") or "") or datetime.max\<close>.\<close>

definition sort_key_of :: "stdlib \<Rightarrow> pydict \<Rightarrow> py_error + instant" where
  "sort_key_of lib rec =
     (case parse_date lib (py_or (py_or (dict_get rec ''discovered'') (dict_get rec ''attackdate''))
                                 (JStr [])) of
        Inl e \<Rightarrow> Inl e
      | Inr None \<Rightarrow> Inr dt_max
      | Inr (Some t) \<Rightarrow> Inr t)"

text \<open>\<^verbatim>\<open>list.sort(key=...)\<close> computes the key of every element first, in order, and an
  exception of the key function leaves the sort; then it sorts by the keys, stably.\<close>

fun sort_keys :: "stdlib \<Rightarrow> pydict list \<Rightarrow> py_error + instant list" where
  "sort_keys lib [] = Inr []"
| "sort_keys lib (r # rs) =
     (case sort_key_of lib r of
        Inl e \<Rightarrow> Inl e
      | Inr k \<Rightarrow> (case sort_keys lib rs of Inl e \<Rightarrow> Inl e | Inr ks \<Rightarrow> Inr (k # ks)))"

definition sort_records :: "stdlib \<Rightarrow> pydict list \<Rightarrow> py_error + pydict list" where
  "sort_records lib xs =
     (case sort_keys lib xs of
        Inl e \<Rightarrow> Inl e
      | Inr ks \<Rightarrow> Inr (map snd (sort_key fst (zip ks xs))))"

text \<open>The records that main writes, in the order it writes them.\<close>

definition select_records :: "stdlib \<Rightarrow> instant \<Rightarrow> int \<Rightarrow> json list \<Rightarrow> py_error + pydict list" where
  "select_records lib now days recs =
     (case cutoff_of now days of
        Inl e \<Rightarrow> Inl e
      | Inr cutoff \<Rightarrow>
          (case filter_loop lib cutoff [] recs of
             Inl e \<Rightarrow> Inl e
           | Inr filtered \<Rightarrow> sort_records lib filtered))"

text \<open>The rows of the CSV file: \<^verbatim>\<open>flatten_record\<close> on each selected record, in order.\<close>

fun export_rows :: "stdlib \<Rightarrow> pydict list \<Rightarrow> py_error + pydict list" where
  "export_rows lib [] = Inr []"
| "export_rows lib (r # rs) =
     (case flatten_record lib r of
        Inl e \<Rightarrow> Inl e
      | Inr row \<Rightarrow> (case export_rows lib rs of Inl e \<Rightarrow> Inl e | Inr rows \<Rightarrow> Inr (row # rows)))"

section \<open>A fragment of the standard library\<close>

text \<open>What \<^verbatim>\<open>datetime.fromisoformat\<close> and \<^verbatim>\<open>datetime.strptime\<close> return on four
  strings: midnight of 2025-01-01 in UTC and the same instant at offset +02:00, the
  date 2025-01-15, and 2025-1-5, which only \<^verbatim>\<open>strptime\<close> with \<^verbatim>\<open>%Y-%m-%d\<close> reads.
  The model is run on it.\<close>

definition sample_lib :: stdlib where
  "sample_lib =
     \<lparr> lib_fromisoformat = (\<lambda>s.
         if s = ''2025-01-01T00:00:00+00:00'' then Some (Aware 63871286400000000 0)
         else if s = ''2025-01-01T02:00:00+02:00'' then Some (Aware 63871293600000000 7200000000)
         else if s = ''2025-01-15'' then Some (Naive 63872496000000000)
         else None),
       lib_strptime = (\<lambda>s f.
         if s = ''2025-1-5'' \<and> f = ''%Y-%m-%d'' then Some 63871632000000000 else None),
       lib_repr = (\<lambda>v. []) \<rparr>"

section \<open>The identifier as the specification words it\<close>

text \<open>The specification derives \<^verbatim>\<open>id_base64\<close> from the detail URL as its last non-empty
  path segment after one trailing slash is stripped, and as the empty string when there
  is no such segment. This definition follows those words, not the code.\<close>

definition strip_trailing_slash :: "string \<Rightarrow> string" where
  "strip_trailing_slash s = (if py_endswith_chr s (CHR ''/'') then butlast s else s)"

definition last_nonempty_segment :: "string \<Rightarrow> string" where
  "last_nonempty_segment s =
     (case filter (\<lambda>w. w \<noteq> []) (py_split_chr (CHR ''/'') (strip_trailing_slash s)) of
        [] \<Rightarrow> []
      | w # ws \<Rightarrow> last (w # ws))"

section \<open>Properties of parse_date\<close>

lemma dropWhile_snoc_keep: "\<not> P y \<Longrightarrow> dropWhile P (xs @ y # ys) = dropWhile P xs @ y # ys"
  by (induction xs) auto

lemma py_strip_ends: "\<not> py_isspace y \<Longrightarrow> py_strip (xs @ [y]) = dropWhile py_isspace xs @ [y]"
  by (simp add: py_strip_def dropWhile_snoc_keep)

lemma py_strip_ends2:
  "\<not> py_isspace y \<Longrightarrow> py_strip (xs @ zs @ [y]) = dropWhile py_isspace (xs @ zs) @ [y]"
  using py_strip_ends[of y "xs @ zs"] by simp

lemma replace_z_strip:
  assumes "py_endswith_chr s (CHR ''Z'')"
  shows "replace_z (py_strip s) = replace_z (py_strip (butlast s @ ''+00:00''))"
proof -
  from assms obtain b where s: "s = b @ ''Z''"
    by (metis py_endswith_chr_def append_butlast_last_id)
  have nz: "\<not> py_isspace (CHR ''Z'')" "\<not> py_isspace (CHR ''0'')" "\<not> py_isspace (CHR ''+'')"
    by (simp_all add: py_isspace_def)
  have l: "py_strip (b @ ''Z'') = dropWhile py_isspace b @ ''Z''"
    using py_strip_ends[OF nz(1), of b] by simp
  have "py_strip (b @ ''+00:00'') = dropWhile py_isspace (b @ ''+00:0'') @ ''0''"
    using py_strip_ends2[OF nz(2), of b "''+00:0''"] by simp
  also have "dropWhile py_isspace (b @ ''+00:0'') = dropWhile py_isspace b @ ''+00:0''"
    using dropWhile_snoc_keep[of py_isspace "CHR ''+''" b "''00:0''"] nz(3) by simp
  finally have r: "py_strip (b @ ''+00:00'') = dropWhile py_isspace b @ ''+00:00''" by simp
  show ?thesis
    unfolding s by (simp add: l r replace_z_def py_endswith_chr_def)
qed

text \<open>
  C8. A string that ends with Z is parsed exactly as the string with that Z replaced
  by +00:00 is: both calls give the same result, and when the ISO parse of the replaced
  string yields an instant, that instant is the result for the string with Z.
\<close>

theorem parse_date_trailing_z:
  "py_endswith_chr s (CHR ''Z'') \<Longrightarrow>
     parse_date lib (JStr s) = parse_date lib (JStr (butlast s @ ''+00:00''))
     \<and> (\<forall>t. iso_attempt lib (py_strip (butlast s @ ''+00:00'')) = Some t
            \<longrightarrow> parse_date lib (JStr s) = Inr (Some t))"
proof -
  assume z: "py_endswith_chr s (CHR ''Z'')"
  have ne: "s \<noteq> []" using z by (simp add: py_endswith_chr_def)
  have eq: "replace_z (py_strip s) = replace_z (py_strip (butlast s @ ''+00:00''))"
    by (rule replace_z_strip[OF z])
  have a: "parse_date lib (JStr s) = parse_date lib (JStr (butlast s @ ''+00:00''))"
    using ne by (simp add: parse_date_def eq)
  have idz: "replace_z (py_strip (butlast s @ ''+00:00'')) = py_strip (butlast s @ ''+00:00'')"
  proof -
    have "\<not> py_isspace (CHR ''0'')" by (simp add: py_isspace_def)
    from py_strip_ends2[OF this, of "butlast s" "''+00:0''"]
    show ?thesis by (simp add: replace_z_def py_endswith_chr_def)
  qed
  show ?thesis using a ne by (auto simp: parse_date_def eq idz)
qed

theorem parse_date_trailing_z_witness:
  "py_endswith_chr ''2025-01-01T00:00:00Z'' (CHR ''Z'')
   \<and> parse_date sample_lib (JStr ''2025-01-01T00:00:00Z'') = Inr (Some 63871286400000000)
   \<and> parse_date sample_lib (JStr ''2025-01-01T00:00:00+00:00'') = Inr (Some 63871286400000000)"
proof -
  have h: "py_endswith_chr ''2025-01-01T00:00:00Z'' (CHR ''Z'')"
    by (simp add: py_endswith_chr_def)
  have p: "parse_date sample_lib (JStr ''2025-01-01T00:00:00+00:00'') = Inr (Some 63871286400000000)"
    by (simp add: parse_date_def py_strip_def py_isspace_def replace_z_def py_endswith_chr_def
        iso_attempt_def sample_lib_def in_range_def dt_max_def)
  from parse_date_trailing_z[OF h, of sample_lib] p h show ?thesis by simp
qed

lemma py_strip_all_space: "\<forall>c\<in>set s. py_isspace c \<Longrightarrow> py_strip s = []"
  by (auto simp: py_strip_def dest: set_dropWhileD)

lemma try_formats_none:
  "\<forall>f\<in>set fs. lib_strptime lib s f = None \<Longrightarrow> try_formats lib s fs = None"
  by (induction fs) auto

text \<open>
  C9. On an absent or a string argument parse_date raises nothing. The result is none
  for an absent and for an empty argument, for a string on which the ISO attempt and
  the three formats all fail, and for a string of whitespace only, which reaches the
  parsers as the empty string that they reject. On any other string the result is the
  first success among the ISO attempt and the formats \<^verbatim>\<open>%Y-%m-%d %H:%M:%S.%f\<close>,
  \<^verbatim>\<open>%Y-%m-%d %H:%M:%S\<close>, \<^verbatim>\<open>%Y-%m-%d\<close>, in that order.
\<close>

theorem parse_date_total:
  "parse_date lib JNull = Inr None
   \<and> parse_date lib (JStr []) = Inr None
   \<and> (\<forall>s. \<exists>r. parse_date lib (JStr s) = Inr r)
   \<and> (\<forall>s. s \<noteq> [] \<longrightarrow>
         parse_date lib (JStr s) =
           Inr (let p = replace_z (py_strip s) in
                case iso_attempt lib p of
                  Some t \<Rightarrow> Some t
                | None \<Rightarrow>
                   (case lib_strptime lib p ''%Y-%m-%d %H:%M:%S.%f'' of
                      Some t \<Rightarrow> Some t
                    | None \<Rightarrow>
                       (case lib_strptime lib p ''%Y-%m-%d %H:%M:%S'' of
                          Some t \<Rightarrow> Some t
                        | None \<Rightarrow> lib_strptime lib p ''%Y-%m-%d''))))
   \<and> (\<forall>s. iso_attempt lib (replace_z (py_strip s)) = None
            \<and> (\<forall>f\<in>set fmts. lib_strptime lib (replace_z (py_strip s)) f = None)
         \<longrightarrow> parse_date lib (JStr s) = Inr None)
   \<and> (\<forall>s. (\<forall>c\<in>set s. py_isspace c)
            \<and> lib_fromisoformat lib [] = None
            \<and> (\<forall>f\<in>set fmts. lib_strptime lib [] f = None)
         \<longrightarrow> parse_date lib (JStr s) = Inr None)"
proof (intro conjI allI impI)
  show "parse_date lib JNull = Inr None" by (simp add: parse_date_def)
  show "parse_date lib (JStr []) = Inr None" by (simp add: parse_date_def)
next
  fix s show "\<exists>r. parse_date lib (JStr s) = Inr r"
    by (simp add: parse_date_def Let_def split: option.split)
next
  fix s :: string assume "s \<noteq> []"
  then show "parse_date lib (JStr s) =
           Inr (let p = replace_z (py_strip s) in
                case iso_attempt lib p of
                  Some t \<Rightarrow> Some t
                | None \<Rightarrow>
                   (case lib_strptime lib p ''%Y-%m-%d %H:%M:%S.%f'' of
                      Some t \<Rightarrow> Some t
                    | None \<Rightarrow>
                       (case lib_strptime lib p ''%Y-%m-%d %H:%M:%S'' of
                          Some t \<Rightarrow> Some t
                        | None \<Rightarrow> lib_strptime lib p ''%Y-%m-%d'')))"
    by (simp add: parse_date_def Let_def fmts_def split: option.split)
next
  fix s
  assume h: "iso_attempt lib (replace_z (py_strip s)) = None
            \<and> (\<forall>f\<in>set fmts. lib_strptime lib (replace_z (py_strip s)) f = None)"
  then have "try_formats lib (replace_z (py_strip s)) fmts = None"
    by (intro try_formats_none) simp
  with h show "parse_date lib (JStr s) = Inr None"
    by (simp add: parse_date_def Let_def)
next
  fix s
  assume h: "(\<forall>c\<in>set s. py_isspace c)
            \<and> lib_fromisoformat lib [] = None
            \<and> (\<forall>f\<in>set fmts. lib_strptime lib [] f = None)"
  then have e: "replace_z (py_strip s) = []"
    by (simp add: py_strip_all_space replace_z_def py_endswith_chr_def)
  from h have "try_formats lib [] fmts = None"
    by (intro try_formats_none) simp
  with h e show "parse_date lib (JStr s) = Inr None"
    by (simp add: parse_date_def Let_def iso_attempt_def)
qed

theorem parse_date_total_witness:
  "parse_date sample_lib JNull = Inr None
   \<and> parse_date sample_lib (JStr ''  '') = Inr None
   \<and> parse_date sample_lib (JStr ''soon'') = Inr None
   \<and> parse_date sample_lib (JStr ''2025-1-5'') = Inr (Some 63871632000000000)"
proof -
  have w: "\<forall>c\<in>set ''  ''. py_isspace c" by (simp add: py_isspace_def)
  have l: "lib_fromisoformat sample_lib [] = None"
          "\<forall>f\<in>set fmts. lib_strptime sample_lib [] f = None"
    by (simp_all add: sample_lib_def)
  have p: "replace_z (py_strip ''soon'') = ''soon''"
    by (simp add: py_strip_def py_isspace_def replace_z_def py_endswith_chr_def)
  have g: "iso_attempt sample_lib (replace_z (py_strip ''soon'')) = None"
          "\<forall>f\<in>set fmts. lib_strptime sample_lib (replace_z (py_strip ''soon'')) f = None"
    unfolding p by (simp_all add: iso_attempt_def sample_lib_def)
  have q: "replace_z (py_strip ''2025-1-5'') = ''2025-1-5''"
    by (simp add: py_strip_def py_isspace_def replace_z_def py_endswith_chr_def)
  have d: "parse_date sample_lib (JStr ''2025-1-5'') = Inr (Some 63871632000000000)"
    using parse_date_total[of sample_lib, THEN conjunct2, THEN conjunct2, THEN conjunct2,
        THEN conjunct1, rule_format, of "''2025-1-5''"]
    unfolding Let_def q by (simp add: iso_attempt_def sample_lib_def)
  from parse_date_total[of sample_lib] w l g d show ?thesis by blast
qed

section \<open>Properties of extract_id_from_detail_url\<close>

lemma py_split_chr_nonempty: "py_split_chr c s \<noteq> []"
  by (induction s) (auto split: list.split)

lemma py_split_chr_snoc_sep: "py_split_chr c (s @ [c]) = py_split_chr c s @ [[]]"
  by (induction s) (auto simp: py_split_chr_nonempty split: list.split)

lemma last_py_split_chr:
  "s \<noteq> [] \<Longrightarrow> last s \<noteq> c \<Longrightarrow> last (py_split_chr c s) \<noteq> []"
proof (induction s)
  case Nil
  then show ?case by simp
next
  case (Cons x xs)
  show ?case
  proof (cases "xs = []")
    case True
    with Cons.prems show ?thesis by simp
  next
    case False
    with Cons have ih: "last (py_split_chr c xs) \<noteq> []" by simp
    obtain w ws where sp: "py_split_chr c xs = w # ws"
      using py_split_chr_nonempty[of c xs] by (cases "py_split_chr c xs") auto
    show ?thesis using ih sp by (auto split: if_splits)
  qed
qed

lemma py_rstrip_chr_snoc_sep: "py_rstrip_chr c (xs @ [c]) = py_rstrip_chr c xs"
  by (simp add: py_rstrip_chr_def)

lemma py_rstrip_chr_snoc_other: "x \<noteq> c \<Longrightarrow> py_rstrip_chr c (xs @ [x]) = xs @ [x]"
  by (simp add: py_rstrip_chr_def)

lemma py_rstrip_chr_last: "py_rstrip_chr c s \<noteq> [] \<Longrightarrow> last (py_rstrip_chr c s) \<noteq> c"
proof (induction s rule: rev_induct)
  case Nil
  then show ?case by (simp add: py_rstrip_chr_def)
next
  case (snoc x xs)
  then show ?case
    by (cases "x = c") (simp_all add: py_rstrip_chr_snoc_sep py_rstrip_chr_snoc_other)
qed

lemma segments_rstrip:
  "filter (\<lambda>w. w \<noteq> []) (py_split_chr c (py_rstrip_chr c s)) =
   filter (\<lambda>w. w \<noteq> []) (py_split_chr c s)"
proof (induction s rule: rev_induct)
  case Nil
  then show ?case by (simp add: py_rstrip_chr_def)
next
  case (snoc x xs)
  then show ?case
    by (cases "x = c")
       (simp_all add: py_rstrip_chr_snoc_sep py_rstrip_chr_snoc_other py_split_chr_snoc_sep)
qed

lemma segments_strip_one:
  "filter (\<lambda>w. w \<noteq> []) (py_split_chr (CHR ''/'') (strip_trailing_slash s)) =
   filter (\<lambda>w. w \<noteq> []) (py_split_chr (CHR ''/'') s)"
proof (cases "py_endswith_chr s (CHR ''/'')")
  case True
  then have "s = butlast s @ ''/''"
    by (simp add: py_endswith_chr_def) (metis append_butlast_last_id)
  then have "py_split_chr (CHR ''/'') s = py_split_chr (CHR ''/'') (butlast s) @ [[]]"
    using py_split_chr_snoc_sep[of "CHR ''/''" "butlast s"] by simp
  with True show ?thesis by (simp add: strip_trailing_slash_def)
next
  case False
  then show ?thesis by (simp add: strip_trailing_slash_def)
qed

lemma last_filter_keep:
  "xs \<noteq> [] \<Longrightarrow> P (last xs) \<Longrightarrow> filter P xs \<noteq> [] \<and> last (filter P xs) = last xs"
  by (induction xs) (auto split: if_splits)

lemma extract_id_str: "extract_id_from_detail_url (JStr s) = last_nonempty_segment s"
proof -
  let ?u = "py_rstrip_chr (CHR ''/'') s"
  let ?ne = "\<lambda>w::string. w \<noteq> []"
  have spec: "last_nonempty_segment s =
      (case filter ?ne (py_split_chr (CHR ''/'') ?u) of [] \<Rightarrow> [] | w # ws \<Rightarrow> last (w # ws))"
    by (simp add: last_nonempty_segment_def segments_strip_one segments_rstrip)
  have code: "extract_id_from_detail_url (JStr s) = last (py_split_chr (CHR ''/'') ?u)"
  proof (cases "s = []")
    case True
    then show ?thesis by (simp add: extract_id_from_detail_url_def py_rstrip_chr_def)
  next
    case False
    then show ?thesis
      using py_split_chr_nonempty[of "CHR ''/''" ?u]
      by (simp add: extract_id_from_detail_url_def split: list.split)
  qed
  show ?thesis
  proof (cases "?u = []")
    case True
    then show ?thesis by (simp add: spec code)
  next
    case False
    then have l: "last (py_split_chr (CHR ''/'') ?u) \<noteq> []"
      by (intro last_py_split_chr py_rstrip_chr_last)
    from last_filter_keep[of "py_split_chr (CHR ''/'') ?u" ?ne, OF py_split_chr_nonempty l]
    show ?thesis
      by (auto simp: spec code split: list.split)
  qed
qed


lemma flatten_record_row:
  "flatten_record lib rec =
     (case py_len (py_or (dict_get_default rec ''duplicates'' (JList [])) (JList [])) of
        Inl e \<Rightarrow> Inl e
      | Inr n \<Rightarrow>
          Inr [(''id_base64'',
                  JStr (extract_id_from_detail_url
                          (py_or (dict_get_default rec ''url'' (JStr [])) (JStr [])))),
               (''victim'', py_or (dict_get rec ''victim'') (JStr [])),
               (''domain'', py_or (dict_get rec ''domain'') (JStr [])),
               (''country'', py_or (dict_get rec ''country'') (JStr [])),
               (''group'', py_or (dict_get rec ''group'') (JStr [])),
               (''activity'', py_or (dict_get rec ''activity'') (JStr [])),
               (''attackdate'', py_or (dict_get rec ''attackdate'') (JStr [])),
               (''discovered'', py_or (dict_get rec ''discovered'') (JStr [])),
               (''description'', py_or (dict_get rec ''description'') (JStr [])),
               (''claim_url'', py_or (dict_get rec ''claim_url'') (JStr [])),
               (''detail_url'', py_or (dict_get rec ''url'') (JStr [])),
               (''screenshot_url'', py_or (dict_get rec ''screenshot'') (JStr [])),
               (''press_urls'', press_urls lib (dict_get rec ''press'')),
               (''duplicates_count'', JInt (int n))])"
  by (simp add: flatten_record_def Let_def split: sum.split)

lemma dict_get_Cons: "dict_get ((k', v) # d) k = (if k' = k then v else dict_get d k)"
  by (simp add: dict_get_def dict_get_default_def)

lemma extract_id_not_str: "(\<forall>s. v \<noteq> JStr s) \<Longrightarrow> extract_id_from_detail_url v = []"
  by (cases v) (simp_all add: extract_id_from_detail_url_def)

lemma last_nonempty_segment_Nil: "last_nonempty_segment [] = []"
  by (simp add: last_nonempty_segment_def strip_trailing_slash_def py_endswith_chr_def)

lemma extract_id_url_field:
  "extract_id_from_detail_url (py_or (dict_get_default rec ''url'' (JStr [])) (JStr [])) =
     (case map_of rec ''url'' of Some (JStr s) \<Rightarrow> last_nonempty_segment s | _ \<Rightarrow> [])"
proof (cases "map_of rec ''url''")
  case None
  then show ?thesis
    by (simp add: dict_get_default_def py_or_def extract_id_from_detail_url_def)
next
  case (Some v)
  show ?thesis
  proof (cases "\<exists>s. v = JStr s")
    case True
    then obtain s where v: "v = JStr s" by blast
    show ?thesis
      using Some v extract_id_str[of s]
      by (cases "s = []") (simp_all add: dict_get_default_def py_or_def last_nonempty_segment_Nil)
  next
    case False
    then have n: "\<forall>s. v \<noteq> JStr s" by blast
    have "extract_id_from_detail_url (py_or v (JStr [])) = []"
    proof (cases "truthy v")
      case True
      then show ?thesis by (simp add: py_or_def extract_id_not_str[OF n])
    next
      case False
      then show ?thesis by (simp add: py_or_def extract_id_from_detail_url_def)
    qed
    with Some n show ?thesis
      by (cases v) (simp_all add: dict_get_default_def)
  qed
qed

text \<open>
  C6. The code's identifier of a string URL is the last non-empty segment of the URL
  between slashes, after a trailing slash is stripped, and empty when no segment is
  non-empty; it is empty for every value that is not a string. The row of a record
  carries it under \<^verbatim>\<open>id_base64\<close>, empty when \<^verbatim>\<open>url\<close> is absent. For
  \<^verbatim>\<open>https://x.example/report/abc123/\<close> it is \<^verbatim>\<open>abc123\<close>, for the empty URL it is empty.
\<close>

theorem id_base64_last_segment:
  "(\<forall>s. extract_id_from_detail_url (JStr s) = last_nonempty_segment s)
   \<and> (\<forall>v. (\<forall>s. v \<noteq> JStr s) \<longrightarrow> extract_id_from_detail_url v = [])
   \<and> (\<forall>row. flatten_record lib rec = Inr row \<longrightarrow>
         dict_get row ''id_base64'' =
           JStr (case map_of rec ''url'' of
                   Some (JStr s) \<Rightarrow> last_nonempty_segment s
                 | _ \<Rightarrow> []))
   \<and> last_nonempty_segment ''https://x.example/report/abc123/'' = ''abc123''
   \<and> last_nonempty_segment [] = []"
proof (intro conjI allI impI)
  fix s show "extract_id_from_detail_url (JStr s) = last_nonempty_segment s"
    by (rule extract_id_str)
next
  fix v assume "\<forall>s. v \<noteq> JStr s"
  then show "extract_id_from_detail_url v = []" by (rule extract_id_not_str)
next
  fix row assume "flatten_record lib rec = Inr row"
  then show "dict_get row ''id_base64'' =
           JStr (case map_of rec ''url'' of
                   Some (JStr s) \<Rightarrow> last_nonempty_segment s
                 | _ \<Rightarrow> [])"
    unfolding flatten_record_row
    by (auto simp: dict_get_Cons extract_id_url_field split: sum.splits)
next
  show "last_nonempty_segment ''https://x.example/report/abc123/'' = ''abc123''"
    by (simp add: last_nonempty_segment_def strip_trailing_slash_def py_endswith_chr_def)
next
  show "last_nonempty_segment [] = []" by (rule last_nonempty_segment_Nil)
qed

theorem id_base64_last_segment_witness:
  "(case flatten_record sample_lib [(''url'', JStr ''https://x.example/report/abc123/'')] of
      Inl e \<Rightarrow> False
    | Inr row \<Rightarrow> dict_get row ''id_base64'' = JStr ''abc123'')
   \<and> extract_id_from_detail_url (JInt 5) = []"
proof -
  let ?rec = "[(''url'', JStr ''https://x.example/report/abc123/'')]"
  note t = id_base64_last_segment[of sample_lib ?rec]
  obtain row where r: "flatten_record sample_lib ?rec = Inr row"
    unfolding flatten_record_row by (simp add: dict_get_default_def py_or_def)
  from t r have "dict_get row ''id_base64'' = JStr ''abc123''" by simp
  moreover from t have "extract_id_from_detail_url (JInt 5) = []" by blast
  ultimately show ?thesis using r by simp
qed

section \<open>Properties of flatten_record\<close>

lemma str_elems_map_filter:
  "str_elems ps = List.map_filter (\<lambda>p. case p of JStr s \<Rightarrow> Some s | _ \<Rightarrow> None) ps"
  by (induction ps rule: str_elems.induct) (simp_all add: List.map_filter_simps)

lemma press_urls_other:
  "v \<noteq> JNull \<Longrightarrow> (\<forall>ps. v \<noteq> JList ps) \<Longrightarrow> press_urls lib v = JStr (py_str lib v)"
  by (cases v) (simp_all add: press_urls_def)

text \<open>
  C7. The row of a record carries under \<^verbatim>\<open>press_urls\<close> the value computed from the
  \<^verbatim>\<open>press\<close> field: the empty string when the field is absent or null; for a list, its
  string elements in order, joined with a bar, the other elements dropped; for any other
  value its \<^verbatim>\<open>str\<close>. The list of http://a and http://b gives \<^verbatim>\<open>http://a|http://b\<close>.
\<close>

theorem press_urls_flattened:
  "(\<forall>row. flatten_record lib rec = Inr row \<longrightarrow>
       dict_get row ''press_urls'' = press_urls lib (dict_get rec ''press''))
   \<and> (map_of rec ''press'' = None \<longrightarrow> dict_get rec ''press'' = JNull)
   \<and> press_urls lib JNull = JStr []
   \<and> (\<forall>ps. press_urls lib (JList ps) = JStr (py_join ''|'' (str_elems ps)))
   \<and> (\<forall>ps. str_elems ps =
             List.map_filter (\<lambda>p. case p of JStr s \<Rightarrow> Some s | _ \<Rightarrow> None) ps)
   \<and> (\<forall>v. v \<noteq> JNull \<and> (\<forall>ps. v \<noteq> JList ps) \<longrightarrow> press_urls lib v = JStr (py_str lib v))
   \<and> press_urls lib (JList [JStr ''http://a'', JStr ''http://b'']) = JStr ''http://a|http://b''"
proof (intro conjI allI impI)
  fix row assume "flatten_record lib rec = Inr row"
  then show "dict_get row ''press_urls'' = press_urls lib (dict_get rec ''press'')"
    unfolding flatten_record_row by (auto simp: dict_get_Cons split: sum.splits)
next
  assume "map_of rec ''press'' = None"
  then show "dict_get rec ''press'' = JNull"
    by (simp add: dict_get_def dict_get_default_def)
next
  show "press_urls lib JNull = JStr []" by (simp add: press_urls_def)
next
  fix ps show "press_urls lib (JList ps) = JStr (py_join ''|'' (str_elems ps))"
    by (simp add: press_urls_def)
next
  fix ps show "str_elems ps =
             List.map_filter (\<lambda>p. case p of JStr s \<Rightarrow> Some s | _ \<Rightarrow> None) ps"
    by (rule str_elems_map_filter)
next
  fix v assume "v \<noteq> JNull \<and> (\<forall>ps. v \<noteq> JList ps)"
  then show "press_urls lib v = JStr (py_str lib v)"
    by (simp add: press_urls_other)
next
  show "press_urls lib (JList [JStr ''http://a'', JStr ''http://b'']) = JStr ''http://a|http://b''"
    by (simp add: press_urls_def)
qed

theorem press_urls_flattened_witness:
  "(case flatten_record sample_lib
           [(''press'', JList [JStr ''http://a'', JInt 3, JStr ''http://b''])] of
      Inl e \<Rightarrow> False
    | Inr row \<Rightarrow> dict_get row ''press_urls'' = JStr ''http://a|http://b'')
   \<and> press_urls sample_lib (JInt 42) = JStr ''42''
   \<and> press_urls sample_lib (JStr ''http://c'') = JStr ''http://c''"
proof -
  let ?rec = "[(''press'', JList [JStr ''http://a'', JInt 3, JStr ''http://b''])]"
  note t = press_urls_flattened[of sample_lib ?rec]
  obtain row where r: "flatten_record sample_lib ?rec = Inr row"
    unfolding flatten_record_row by (simp add: dict_get_default_def py_or_def)
  from t r have "dict_get row ''press_urls'' = press_urls sample_lib (dict_get ?rec ''press'')"
    by blast
  also have "\<dots> = JStr ''http://a|http://b''"
    by (simp add: dict_get_Cons press_urls_def)
  finally have a: "dict_get row ''press_urls'' = JStr ''http://a|http://b''" .
  have o: "\<And>v. v \<noteq> JNull \<and> (\<forall>ps. v \<noteq> JList ps) \<Longrightarrow>
             press_urls sample_lib v = JStr (py_str sample_lib v)"
    using press_urls_flattened[of sample_lib ?rec] by blast
  have b: "press_urls sample_lib (JInt 42) = JStr ''42''"
    using o[of "JInt 42"] by (simp add: str_of_int_def char_of_eq_iff)
  have c: "press_urls sample_lib (JStr ''http://c'') = JStr ''http://c''"
    using o[of "JStr ''http://c''"] by simp
  show ?thesis using a b c r by simp
qed

lemma press_urls_is_str: "\<exists>s. press_urls lib v = JStr s"
  by (cases v) (simp_all add: press_urls_def)

lemma py_or_falsy: "\<not> truthy v \<Longrightarrow> py_or v d = d"
  by (simp add: py_or_def)

lemma flatten_record_returns:
  assumes "\<not> truthy (dict_get rec ''duplicates'') \<or> (\<exists>xs. dict_get rec ''duplicates'' = JList xs)"
  shows "\<exists>row. flatten_record lib rec = Inr row"
proof -
  let ?d = "py_or (dict_get_default rec ''duplicates'' (JList [])) (JList [])"
  have "\<exists>xs. ?d = JList xs"
  proof (cases "map_of rec ''duplicates''")
    case None
    then show ?thesis by (simp add: dict_get_default_def py_or_def)
  next
    case (Some v)
    then have "dict_get rec ''duplicates'' = v" "dict_get_default rec ''duplicates'' (JList []) = v"
      by (simp_all add: dict_get_def dict_get_default_def)
    with assms show ?thesis by (auto simp: py_or_def)
  qed
  then obtain xs where "?d = JList xs" by blast
  then show ?thesis unfolding flatten_record_row by simp
qed

text \<open>
  C10. A row that flatten_record returns has exactly the fourteen columns of
  \<^verbatim>\<open>CSV_FIELDS\<close>, each once and in that order. Every column other than
  \<^verbatim>\<open>duplicates_count\<close> holds a string whenever the field of the record that it is read
  from is absent or false, and \<^verbatim>\<open>duplicates_count\<close> holds a count. A row is returned for
  every record whose \<^verbatim>\<open>duplicates\<close> field is absent, false or a list.
\<close>

theorem flatten_record_keys:
  "(\<forall>row. flatten_record lib rec = Inr row \<longrightarrow>
       map fst row = CSV_FIELDS
       \<and> distinct (map fst row)
       \<and> length row = 14
       \<and> (\<forall>(k, src) \<in> set [(''id_base64'', ''url''), (''victim'', ''victim''),
                             (''domain'', ''domain''), (''country'', ''country''),
                             (''group'', ''group''), (''activity'', ''activity''),
                             (''attackdate'', ''attackdate''), (''discovered'', ''discovered''),
                             (''description'', ''description''), (''claim_url'', ''claim_url''),
                             (''detail_url'', ''url''), (''screenshot_url'', ''screenshot''),
                             (''press_urls'', ''press'')].
             \<not> truthy (dict_get rec src) \<longrightarrow> (\<exists>s. dict_get row k = JStr s))
       \<and> (\<exists>n. dict_get row ''duplicates_count'' = JInt (int n)))
   \<and> (\<not> truthy (dict_get rec ''duplicates'') \<or> (\<exists>xs. dict_get rec ''duplicates'' = JList xs)
        \<longrightarrow> (\<exists>row. flatten_record lib rec = Inr row))"
proof (intro conjI allI impI)
  fix row
  assume "flatten_record lib rec = Inr row"
  then obtain n where row: "row =
     [(''id_base64'',
         JStr (extract_id_from_detail_url
                 (py_or (dict_get_default rec ''url'' (JStr [])) (JStr [])))),
      (''victim'', py_or (dict_get rec ''victim'') (JStr [])),
      (''domain'', py_or (dict_get rec ''domain'') (JStr [])),
      (''country'', py_or (dict_get rec ''country'') (JStr [])),
      (''group'', py_or (dict_get rec ''group'') (JStr [])),
      (''activity'', py_or (dict_get rec ''activity'') (JStr [])),
      (''attackdate'', py_or (dict_get rec ''attackdate'') (JStr [])),
      (''discovered'', py_or (dict_get rec ''discovered'') (JStr [])),
      (''description'', py_or (dict_get rec ''description'') (JStr [])),
      (''claim_url'', py_or (dict_get rec ''claim_url'') (JStr [])),
      (''detail_url'', py_or (dict_get rec ''url'') (JStr [])),
      (''screenshot_url'', py_or (dict_get rec ''screenshot'') (JStr [])),
      (''press_urls'', press_urls lib (dict_get rec ''press'')),
      (''duplicates_count'', JInt (int n))]"
    unfolding flatten_record_row by (auto split: sum.splits)
  show "map fst row = CSV_FIELDS" by (simp add: row CSV_FIELDS_def)
  show "distinct (map fst row)" by (simp add: row)
  show "length row = 14" by (simp add: row)
  show "\<exists>n. dict_get row ''duplicates_count'' = JInt (int n)"
    by (simp add: row dict_get_Cons)
  show "\<forall>(k, src) \<in> set [(''id_base64'', ''url''), (''victim'', ''victim''),
                             (''domain'', ''domain''), (''country'', ''country''),
                             (''group'', ''group''), (''activity'', ''activity''),
                             (''attackdate'', ''attackdate''), (''discovered'', ''discovered''),
                             (''description'', ''description''), (''claim_url'', ''claim_url''),
                             (''detail_url'', ''url''), (''screenshot_url'', ''screenshot''),
                             (''press_urls'', ''press'')].
             \<not> truthy (dict_get rec src) \<longrightarrow> (\<exists>s. dict_get row k = JStr s)"
    by (simp add: row dict_get_Cons py_or_falsy press_urls_is_str)
next
  assume "\<not> truthy (dict_get rec ''duplicates'') \<or> (\<exists>xs. dict_get rec ''duplicates'' = JList xs)"
  then show "\<exists>row. flatten_record lib rec = Inr row" by (rule flatten_record_returns)
qed

theorem flatten_record_keys_witness:
  "(case flatten_record sample_lib
           [(''victim'', JStr ''Acme''), (''duplicates'', JList [JInt 7, JInt 9])] of
      Inl e \<Rightarrow> False
    | Inr row \<Rightarrow> map fst row = CSV_FIELDS
                 \<and> dict_get row ''domain'' = JStr []
                 \<and> dict_get row ''duplicates_count'' = JInt 2)"
proof -
  let ?rec = "[(''victim'', JStr ''Acme''), (''duplicates'', JList [JInt 7, JInt 9])]"
  note t = flatten_record_keys[of sample_lib ?rec]
  have "\<exists>xs. dict_get ?rec ''duplicates'' = JList xs" by (simp add: dict_get_Cons)
  with t obtain row where r: "flatten_record sample_lib ?rec = Inr row" by blast
  have v: "dict_get row ''domain'' = JStr []" "dict_get row ''duplicates_count'' = JInt 2"
    using r unfolding flatten_record_row
    by (auto simp: dict_get_default_def dict_get_def py_or_def)
  from t r have "map fst row = CSV_FIELDS" by blast
  with r v show ?thesis by simp
qed

text \<open>
  C5. The specification has flatten_record never fail, with a count of 0 when
  \<^verbatim>\<open>duplicates\<close> is not a list. On the record whose \<^verbatim>\<open>duplicates\<close> field is the
  number 1 the call of \<^verbatim>\<open>len\<close> raises \<^verbatim>\<open>TypeError\<close>: flatten_record returns no row, and the
  export of a list of records that contains this record stops with the same error.
\<close>

theorem flatten_record_duplicates_number:
  "flatten_record sample_lib [(''duplicates'', JInt 1)] = Inl TypeError
   \<and> export_rows sample_lib [[(''country'', JStr ''US'')], [(''duplicates'', JInt 1)]]
       = Inl TypeError"
proof -
  have a: "flatten_record sample_lib [(''duplicates'', JInt 1)] = Inl TypeError"
    unfolding flatten_record_row by (simp add: dict_get_default_def py_or_def)
  obtain row where "flatten_record sample_lib [(''country'', JStr ''US'')] = Inr row"
    unfolding flatten_record_row by (simp add: dict_get_default_def py_or_def)
  with a show ?thesis by simp
qed

section \<open>Properties of the filter and the sort\<close>

lemma cutoff_of_Inr: "cutoff_of now days = Inr c \<Longrightarrow> c = now - days * 86400000000 \<and> in_range c"
  by (auto simp: cutoff_of_def Let_def split: if_splits)

lemma keep_record_True:
  "keep_record lib cutoff rec = Inr True \<longleftrightarrow>
     (\<exists>c dt. country_of rec = Inr c \<and> c \<in> set US_COUNTRIES
             \<and> parse_date lib (date_s rec) = Inr (Some dt) \<and> cutoff \<le> dt)"
  by (auto simp: keep_record_def split: sum.splits option.splits if_splits)

lemma keep_record_passed:
  "country_of rec = Inr c \<Longrightarrow> c \<in> set US_COUNTRIES \<Longrightarrow>
     keep_record lib cutoff rec =
       (case parse_date lib (date_s rec) of
          Inl e \<Rightarrow> Inl e
        | Inr None \<Rightarrow> Inr False
        | Inr (Some dt) \<Rightarrow> Inr (cutoff \<le> dt))"
  by (auto simp: keep_record_def split: sum.splits option.splits)

lemma filter_loop_Inr:
  "filter_loop lib cutoff acc rs = Inr out \<Longrightarrow>
     \<exists>ds. rs = map JDict ds
          \<and> (\<forall>d\<in>set ds. \<exists>b. keep_record lib cutoff d = Inr b)
          \<and> out = acc @ filter (\<lambda>d. keep_record lib cutoff d = Inr True) ds"
proof (induction rs arbitrary: acc)
  case Nil
  then show ?case by simp
next
  case (Cons r rs)
  from Cons.prems obtain d where r: "r = JDict d"
    by (cases r) simp_all
  from Cons.prems r obtain b where b: "keep_record lib cutoff d = Inr b"
    by (cases "keep_record lib cutoff d") simp_all
  from Cons.prems r b
  have "filter_loop lib cutoff (if b then acc @ [d] else acc) rs = Inr out" by simp
  from Cons.IH[OF this] obtain ds where ds: "rs = map JDict ds"
      "\<forall>d\<in>set ds. \<exists>b. keep_record lib cutoff d = Inr b"
      "out = (if b then acc @ [d] else acc) @ filter (\<lambda>d. keep_record lib cutoff d = Inr True) ds"
    by blast
  show ?case
  proof (intro exI[of _ "d # ds"] conjI)
    show "r # rs = map JDict (d # ds)" using r ds(1) by simp
    show "\<forall>d\<in>set (d # ds). \<exists>b. keep_record lib cutoff d = Inr b" using b ds(2) by simp
    show "out = acc @ filter (\<lambda>d. keep_record lib cutoff d = Inr True) (d # ds)"
      using b ds(3) by (cases b) simp_all
  qed
qed

lemma insort_key_zip:
  "\<forall>p\<in>set ps. fst p = f (snd p) \<Longrightarrow>
     map snd (insort_key fst (f x, x) ps) = insort_key f x (map snd ps)"
  by (induction ps) auto

lemma set_insort_key_zip:
  "\<forall>p\<in>set ps. fst p = f (snd p) \<Longrightarrow> \<forall>p\<in>set (insort_key fst (f x, x) ps). fst p = f (snd p)"
  by (induction ps) auto

lemma sort_key_zip:
  "map snd (sort_key fst (zip (map f xs) xs)) = sort_key f xs
   \<and> (\<forall>p\<in>set (sort_key fst (zip (map f xs) xs)). fst p = f (snd p))"
proof (induction xs)
  case Nil
  then show ?case by simp
next
  case (Cons x xs)
  then show ?case
    using insort_key_zip[of "sort_key fst (zip (map f xs) xs)" f x]
          set_insort_key_zip[of "sort_key fst (zip (map f xs) xs)" f x]
    by simp
qed

lemma sort_keys_Inr:
  "sort_keys lib xs = Inr ks \<Longrightarrow>
     ks = map (projr \<circ> sort_key_of lib) xs \<and> (\<forall>r\<in>set xs. \<exists>k. sort_key_of lib r = Inr k)"
  by (induction xs arbitrary: ks) (auto split: sum.splits)

lemma sort_keys_total:
  "\<forall>r\<in>set xs. \<exists>k. sort_key_of lib r = Inr k \<Longrightarrow> \<exists>ks. sort_keys lib xs = Inr ks"
  by (induction xs) (auto split: sum.splits)

lemma sort_records_Inr:
  "sort_records lib xs = Inr out \<Longrightarrow>
     out = sort_key (projr \<circ> sort_key_of lib) xs \<and> (\<forall>r\<in>set xs. \<exists>k. sort_key_of lib r = Inr k)"
  using sort_keys_Inr[of lib xs] sort_key_zip[of "projr \<circ> sort_key_of lib" xs]
  by (auto simp: sort_records_def split: sum.splits)

lemma sort_key_of_kept:
  assumes "keep_record lib cutoff rec = Inr True"
  shows "\<exists>k. sort_key_of lib rec = Inr k"
proof -
  from assms obtain dt where p: "parse_date lib (date_s rec) = Inr (Some dt)"
    unfolding keep_record_True by blast
  let ?da = "py_or (dict_get rec ''discovered'') (dict_get rec ''attackdate'')"
  show ?thesis
  proof (cases "truthy ?da")
    case True
    then have "py_or ?da (JStr []) = date_s rec" by (simp add: date_s_def py_or_def)
    with p show ?thesis by (simp add: sort_key_of_def)
  next
    case False
    then have "py_or ?da (JStr []) = JStr []" by (simp add: py_or_def)
    then show ?thesis by (simp add: sort_key_of_def parse_date_def)
  qed
qed

lemma sort_after_filter:
  assumes "filter_loop lib cutoff [] recs = Inr filtered"
  shows "\<exists>out. sort_records lib filtered = Inr out"
proof -
  from filter_loop_Inr[OF assms] have "\<forall>r\<in>set filtered. keep_record lib cutoff r = Inr True"
    by auto
  then have "\<forall>r\<in>set filtered. \<exists>k. sort_key_of lib r = Inr k"
    using sort_key_of_kept by blast
  from sort_keys_total[OF this] show ?thesis
    by (auto simp: sort_records_def)
qed

lemma select_records_Inr:
  assumes "select_records lib now days recs = Inr out"
  shows "\<exists>cutoff ds. cutoff_of now days = Inr cutoff \<and> recs = map JDict ds
           \<and> set out = {d \<in> set ds. keep_record lib cutoff d = Inr True}"
proof -
  from assms obtain cutoff filtered where c: "cutoff_of now days = Inr cutoff"
      and f: "filter_loop lib cutoff [] recs = Inr filtered"
      and s: "sort_records lib filtered = Inr out"
    by (auto simp: select_records_def split: sum.splits)
  from filter_loop_Inr[OF f] obtain ds where ds: "recs = map JDict ds"
      "filtered = filter (\<lambda>d. keep_record lib cutoff d = Inr True) ds" by auto
  from sort_records_Inr[OF s] have "set out = set filtered" by simp
  with c ds show ?thesis by auto
qed

text \<open>
  C1. For a record whose upper-cased country is one of the accepted three and whose
  reference date parses to an instant, the cutoff being now minus the days of the
  window: the loop keeps the record exactly when the instant is at or after the cutoff,
  and in every run that returns, the record is among the selected records exactly then.
  A record dated at the cutoff instant itself is kept, an earlier one is dropped.
\<close>

theorem filter_cutoff_boundary:
  "cutoff_of now days = Inr cutoff \<Longrightarrow> country_of rec = Inr c \<Longrightarrow> c \<in> set US_COUNTRIES \<Longrightarrow>
   parse_date lib (date_s rec) = Inr (Some dt) \<Longrightarrow>
     cutoff = now - days * 86400000000
     \<and> keep_record lib cutoff rec = Inr (cutoff \<le> dt)
     \<and> (\<forall>recs out. select_records lib now days recs = Inr out \<and> JDict rec \<in> set recs
           \<longrightarrow> (rec \<in> set out \<longleftrightarrow> cutoff \<le> dt))"
proof -
  assume co: "cutoff_of now days = Inr cutoff" and c: "country_of rec = Inr c"
    and us: "c \<in> set US_COUNTRIES" and p: "parse_date lib (date_s rec) = Inr (Some dt)"
  have a: "cutoff = now - days * 86400000000"
    using cutoff_of_Inr[OF co] by simp
  have k: "keep_record lib cutoff rec = Inr (cutoff \<le> dt)"
    using keep_record_passed[OF c us, of lib cutoff] p by simp
  have s: "\<forall>recs out. select_records lib now days recs = Inr out \<and> JDict rec \<in> set recs
           \<longrightarrow> (rec \<in> set out \<longleftrightarrow> cutoff \<le> dt)"
  proof (intro allI impI)
    fix recs out
    assume h: "select_records lib now days recs = Inr out \<and> JDict rec \<in> set recs"
    from select_records_Inr[of lib now days recs out] h co
    obtain ds where ds: "recs = map JDict ds"
        "set out = {d \<in> set ds. keep_record lib cutoff d = Inr True}"
      by auto
    from h ds(1) have "rec \<in> set ds" by auto
    with ds(2) k show "rec \<in> set out \<longleftrightarrow> cutoff \<le> dt" by auto
  qed
  from a k s show ?thesis by blast
qed


lemma sample_parse_z:
  "parse_date sample_lib (JStr ''2025-01-01T00:00:00Z'') = Inr (Some 63871286400000000)"
  by (simp add: parse_date_def py_strip_def py_isspace_def replace_z_def py_endswith_chr_def
      iso_attempt_def sample_lib_def in_range_def dt_max_def)

theorem filter_cutoff_boundary_witness:
  "keep_record sample_lib 63871286400000000
     [(''country'', JStr ''us''), (''discovered'', JStr ''2025-01-01T00:00:00Z'')] = Inr True
   \<and> select_records sample_lib 63872496000000000 14
       [JDict [(''country'', JStr ''us''), (''discovered'', JStr ''2025-01-01T00:00:00Z'')]]
       = Inr [[(''country'', JStr ''us''), (''discovered'', JStr ''2025-01-01T00:00:00Z'')]]
   \<and> keep_record sample_lib 63871372800000000
       [(''country'', JStr ''us''), (''discovered'', JStr ''2025-01-01T00:00:00Z'')] = Inr False"
proof -
  let ?rec = "[(''country'', JStr ''us''), (''discovered'', JStr ''2025-01-01T00:00:00Z'')]"
  have co: "cutoff_of 63872496000000000 14 = Inr 63871286400000000"
    by (simp add: cutoff_of_def in_range_def dt_max_def Let_def)
  have co': "cutoff_of 63872496000000000 13 = Inr 63871372800000000"
    by (simp add: cutoff_of_def in_range_def dt_max_def Let_def)
  have c: "country_of ?rec = Inr ''US''"
    by (simp add: country_of_def dict_get_Cons py_or_def py_upper_def py_upper_chr_def
        char_of_eq_iff)
  have us: "''US'' \<in> set US_COUNTRIES" by (simp add: US_COUNTRIES_def)
  have d: "date_s ?rec = JStr ''2025-01-01T00:00:00Z''"
    by (simp add: date_s_def dict_get_Cons py_or_def)
  have p: "parse_date sample_lib (date_s ?rec) = Inr (Some 63871286400000000)"
    unfolding d by (rule sample_parse_z)
  note t = filter_cutoff_boundary[OF co c us p]
  note t' = filter_cutoff_boundary[OF co' c us p]
  from t have k: "keep_record sample_lib 63871286400000000 ?rec = Inr True" by simp
  from t' have k': "keep_record sample_lib 63871372800000000 ?rec = Inr False" by simp
  have sk: "sort_key_of sample_lib ?rec = Inr 63871286400000000"
    using sample_parse_z by (simp add: sort_key_of_def dict_get_Cons py_or_def)
  have s: "select_records sample_lib 63872496000000000 14 [JDict ?rec] = Inr [?rec]"
    by (simp add: select_records_def co k sort_records_def sk)
  from k s k' show ?thesis by blast
qed

lemma not_selected_unless_kept:
  assumes "select_records lib now days recs = Inr out" and "rec \<in> set out"
  shows "\<exists>cutoff. cutoff_of now days = Inr cutoff \<and> keep_record lib cutoff rec = Inr True"
  using select_records_Inr[OF assms(1)] assms(2) by auto

text \<open>The reference date of a record is the \<^verbatim>\<open>discovered\<close> field when that is true, else
  the \<^verbatim>\<open>attackdate\<close> field when that is true, else the \<^verbatim>\<open>date\<close> field. When parse_date of
  it gives none, the loop passes over the record and no run selects it.\<close>

lemma reference_date_priority:
  "date_s rec =
     (if truthy (dict_get rec ''discovered'') then dict_get rec ''discovered''
      else if truthy (dict_get rec ''attackdate'') then dict_get rec ''attackdate''
      else dict_get rec ''date'')
   \<and> (\<forall>c. country_of rec = Inr c \<and> c \<in> set US_COUNTRIES \<longrightarrow>
         keep_record lib cutoff rec =
           (case parse_date lib (date_s rec) of
              Inl e \<Rightarrow> Inl e
            | Inr None \<Rightarrow> Inr False
            | Inr (Some dt) \<Rightarrow> Inr (cutoff \<le> dt)))
   \<and> (\<not> truthy (date_s rec) \<longrightarrow> parse_date lib (date_s rec) = Inr None)
   \<and> (parse_date lib (date_s rec) = Inr None \<longrightarrow>
         (\<forall>c. country_of rec = Inr c \<longrightarrow> keep_record lib cutoff rec = Inr False)
         \<and> (\<forall>now days recs out. select_records lib now days recs = Inr out
               \<longrightarrow> rec \<notin> set out))"
proof (intro conjI allI impI)
  show "date_s rec =
     (if truthy (dict_get rec ''discovered'') then dict_get rec ''discovered''
      else if truthy (dict_get rec ''attackdate'') then dict_get rec ''attackdate''
      else dict_get rec ''date'')"
    by (simp add: date_s_def py_or_def)
next
  fix c assume "country_of rec = Inr c \<and> c \<in> set US_COUNTRIES"
  then show "keep_record lib cutoff rec =
           (case parse_date lib (date_s rec) of
              Inl e \<Rightarrow> Inl e
            | Inr None \<Rightarrow> Inr False
            | Inr (Some dt) \<Rightarrow> Inr (cutoff \<le> dt))"
    using keep_record_passed[of rec c lib cutoff] by simp
next
  assume "\<not> truthy (date_s rec)"
  then show "parse_date lib (date_s rec) = Inr None" by (simp add: parse_date_def)
next
  fix c assume "parse_date lib (date_s rec) = Inr None" and "country_of rec = Inr c"
  then show "keep_record lib cutoff rec = Inr False"
    by (simp add: keep_record_def)
next
  fix now days recs out
  assume p: "parse_date lib (date_s rec) = Inr None"
    and s: "select_records lib now days recs = Inr out"
  show "rec \<notin> set out"
  proof
    assume "rec \<in> set out"
    from not_selected_unless_kept[OF s this] p show False
      by (auto simp: keep_record_True)
  qed
qed

text \<open>
  C2. The specification has every record whose reference date does not parse dropped
  with no error raised. On the record with country US whose \<^verbatim>\<open>discovered\<close> field is the
  number 1700000000 the reference date is that number; it is true and has no \<^verbatim>\<open>strip\<close>,
  and parse_date calls \<^verbatim>\<open>strip\<close> before its \<^verbatim>\<open>try\<close>: the \<^verbatim>\<open>AttributeError\<close> leaves
  parse_date, the loop and the run, whatever the library and the cutoff are.
\<close>

theorem parse_date_number_raises:
  "date_s [(''country'', JStr ''US''), (''discovered'', JInt 1700000000)] = JInt 1700000000
   \<and> parse_date lib (JInt 1700000000) = Inl AttributeError
   \<and> keep_record lib cutoff [(''country'', JStr ''US''), (''discovered'', JInt 1700000000)]
       = Inl AttributeError
   \<and> select_records lib 63872496000000000 14
       [JDict [(''country'', JStr ''US''), (''discovered'', JInt 1700000000)]]
       = Inl AttributeError"
proof -
  let ?rec = "[(''country'', JStr ''US''), (''discovered'', JInt 1700000000)]"
  have d: "date_s ?rec = JInt 1700000000"
    by (simp add: date_s_def dict_get_Cons py_or_def)
  have p: "parse_date lib (JInt 1700000000) = Inl AttributeError"
    by (simp add: parse_date_def)
  have c: "country_of ?rec = Inr ''US''"
    by (simp add: country_of_def dict_get_Cons py_or_def py_upper_def py_upper_chr_def)
  have k: "\<And>cutoff. keep_record lib cutoff ?rec = Inl AttributeError"
    by (simp add: keep_record_def c d p US_COUNTRIES_def)
  have co: "cutoff_of 63872496000000000 14 = Inr 63871286400000000"
    by (simp add: cutoff_of_def in_range_def dt_max_def Let_def)
  have s: "select_records lib 63872496000000000 14 [JDict ?rec] = Inl AttributeError"
    by (simp add: select_records_def co k)
  from d p k s show ?thesis by blast
qed

text \<open>
  C4. A record whose upper-cased country is not \<^verbatim>\<open>US\<close>, \<^verbatim>\<open>UNITED STATES\<close> or \<^verbatim>\<open>USA\<close>
  is passed over by the loop whatever its dates are; an absent or false country counts
  as the empty string and is passed over too. A record whose upper-cased country is one
  of the three goes on to the test of its date. Every record in the output of a run has
  its upper-cased country among the three.
\<close>

theorem country_filter:
  "(\<forall>c. country_of rec = Inr c \<and> c \<notin> set US_COUNTRIES \<longrightarrow>
        keep_record lib cutoff rec = Inr False)
   \<and> (\<not> truthy (dict_get rec ''country'') \<longrightarrow> country_of rec = Inr [])
   \<and> (map_of rec ''country'' = None \<longrightarrow> keep_record lib cutoff rec = Inr False)
   \<and> (\<forall>s. dict_get rec ''country'' = JStr s \<longrightarrow> country_of rec = Inr (py_upper s))
   \<and> (\<forall>c. country_of rec = Inr c \<and> c \<in> set US_COUNTRIES \<longrightarrow>
         keep_record lib cutoff rec =
           (case parse_date lib (date_s rec) of
              Inl e \<Rightarrow> Inl e
            | Inr None \<Rightarrow> Inr False
            | Inr (Some dt) \<Rightarrow> Inr (cutoff \<le> dt)))
   \<and> (\<forall>now days recs out. select_records lib now days recs = Inr out \<and> rec \<in> set out
         \<longrightarrow> (\<exists>c. country_of rec = Inr c \<and> c \<in> set US_COUNTRIES))"
proof (intro conjI allI impI)
  fix c assume "country_of rec = Inr c \<and> c \<notin> set US_COUNTRIES"
  then show "keep_record lib cutoff rec = Inr False" by (simp add: keep_record_def)
next
  assume "\<not> truthy (dict_get rec ''country'')"
  then show "country_of rec = Inr []"
    by (simp add: country_of_def py_or_def py_upper_def)
next
  assume "map_of rec ''country'' = None"
  then have "country_of rec = Inr []"
    by (simp add: country_of_def dict_get_def dict_get_default_def py_or_def py_upper_def)
  then show "keep_record lib cutoff rec = Inr False"
    by (simp add: keep_record_def US_COUNTRIES_def)
next
  fix s assume "dict_get rec ''country'' = JStr s"
  then show "country_of rec = Inr (py_upper s)"
    by (simp add: country_of_def py_or_def py_upper_def)
next
  fix c assume "country_of rec = Inr c \<and> c \<in> set US_COUNTRIES"
  then show "keep_record lib cutoff rec =
           (case parse_date lib (date_s rec) of
              Inl e \<Rightarrow> Inl e
            | Inr None \<Rightarrow> Inr False
            | Inr (Some dt) \<Rightarrow> Inr (cutoff \<le> dt))"
    using keep_record_passed[of rec c lib cutoff] by simp
next
  fix now days recs out
  assume "select_records lib now days recs = Inr out \<and> rec \<in> set out"
  then show "\<exists>c. country_of rec = Inr c \<and> c \<in> set US_COUNTRIES"
    using not_selected_unless_kept[of lib now days recs out rec]
    by (auto simp: keep_record_True)
qed

theorem country_filter_witness:
  "keep_record sample_lib 0 [(''country'', JStr ''de''), (''discovered'', JStr ''2025-01-15'')]
     = Inr False
   \<and> keep_record sample_lib 0 [(''discovered'', JStr ''2025-01-15'')] = Inr False
   \<and> keep_record sample_lib 0
        [(''country'', JStr ''United States''), (''discovered'', JStr ''2025-01-15'')] = Inr True
   \<and> select_records sample_lib 63872496000000000 14
        [JDict [(''country'', JStr ''de''), (''discovered'', JStr ''2025-01-15'')],
         JDict [(''country'', JStr ''usa''), (''discovered'', JStr ''2025-01-15'')]]
       = Inr [[(''country'', JStr ''usa''), (''discovered'', JStr ''2025-01-15'')]]"
proof -
  let ?de = "[(''country'', JStr ''de''), (''discovered'', JStr ''2025-01-15'')]"
  let ?no = "[(''discovered'', JStr ''2025-01-15'')]"
  let ?us = "[(''country'', JStr ''United States''), (''discovered'', JStr ''2025-01-15'')]"
  let ?usa = "[(''country'', JStr ''usa''), (''discovered'', JStr ''2025-01-15'')]"
  have p15: "parse_date sample_lib (JStr ''2025-01-15'') = Inr (Some 63872496000000000)"
    by (simp add: parse_date_def py_strip_def py_isspace_def replace_z_def py_endswith_chr_def
        iso_attempt_def sample_lib_def)
  have cde: "country_of ?de = Inr ''DE''"
    by (simp add: country_of_def dict_get_Cons py_or_def py_upper_def py_upper_chr_def
        char_of_eq_iff)
  have nde: "''DE'' \<notin> set US_COUNTRIES" by (simp add: US_COUNTRIES_def)
  have kde: "\<And>cutoff. keep_record sample_lib cutoff ?de = Inr False"
    using country_filter[of ?de sample_lib] cde nde by blast
  have kno: "keep_record sample_lib 0 ?no = Inr False"
    using country_filter[of ?no sample_lib 0] by simp
  have cus: "country_of ?us = Inr ''UNITED STATES''"
    by (simp add: country_of_def dict_get_Cons py_or_def py_upper_def py_upper_chr_def
        char_of_eq_iff)
  have ius: "''UNITED STATES'' \<in> set US_COUNTRIES" by (simp add: US_COUNTRIES_def)
  have dus: "date_s ?us = JStr ''2025-01-15''"
    by (simp add: date_s_def dict_get_Cons py_or_def)
  have kus: "keep_record sample_lib 0 ?us = Inr True"
    using country_filter[of ?us sample_lib 0] cus ius by (simp add: dus p15)
  have cusa: "country_of ?usa = Inr ''USA''"
    by (simp add: country_of_def dict_get_Cons py_or_def py_upper_def py_upper_chr_def
        char_of_eq_iff)
  have iusa: "''USA'' \<in> set US_COUNTRIES" by (simp add: US_COUNTRIES_def)
  have dusa: "date_s ?usa = JStr ''2025-01-15''"
    by (simp add: date_s_def dict_get_Cons py_or_def)
  have kusa: "keep_record sample_lib 63871286400000000 ?usa = Inr True"
    using country_filter[of ?usa sample_lib 63871286400000000] cusa iusa by (simp add: dusa p15)
  have co: "cutoff_of 63872496000000000 14 = Inr 63871286400000000"
    by (simp add: cutoff_of_def in_range_def dt_max_def Let_def)
  have sk: "sort_key_of sample_lib ?usa = Inr 63872496000000000"
    using p15 by (simp add: sort_key_of_def dict_get_Cons py_or_def)
  have s: "select_records sample_lib 63872496000000000 14 [JDict ?de, JDict ?usa] = Inr [?usa]"
    by (simp add: select_records_def co kde kusa sort_records_def sk)
  from kde[of 0] kno kus s show ?thesis by blast
qed

lemma map_of_dict_set: "map_of (dict_set d k v) k' = (if k' = k then Some v else map_of d k')"
  by (induction d) auto

lemma dict_get_dict_set: "k' \<noteq> k \<Longrightarrow> dict_get (dict_set d k v) k' = dict_get d k'"
  by (simp add: dict_get_def dict_get_default_def map_of_dict_set)

lemma sort_key_of_ignores_date: "sort_key_of lib (dict_set r ''date'' v) = sort_key_of lib r"
  by (simp add: sort_key_of_def dict_get_dict_set)

lemma sort_records_props:
  assumes "sort_records lib xs = Inr out"
  shows "sorted (map (projr \<circ> sort_key_of lib) out)"
    and "mset out = mset xs"
    and "filter (\<lambda>r. sort_key_of lib r = Inr k) out = filter (\<lambda>r. sort_key_of lib r = Inr k) xs"
proof -
  let ?f = "projr \<circ> sort_key_of lib"
  from sort_records_Inr[OF assms] have out: "out = sort_key ?f xs"
    and ks: "\<forall>r\<in>set xs. \<exists>k. sort_key_of lib r = Inr k" by auto
  show "sorted (map ?f out)" by (simp add: out)
  show "mset out = mset xs" by (simp add: out)
  have e: "\<And>ys. set ys = set xs \<Longrightarrow>
      filter (\<lambda>r. sort_key_of lib r = Inr k) ys = filter (\<lambda>r. ?f r = k) ys"
    using ks by (intro filter_cong) auto
  have "filter (\<lambda>r. sort_key_of lib r = Inr k) out = filter (\<lambda>r. ?f r = k) out"
    by (rule e) (simp add: out)
  also have "\<dots> = filter (\<lambda>r. ?f r = k) xs"
    unfolding out by (rule sort_key_stable)
  also have "\<dots> = filter (\<lambda>r. sort_key_of lib r = Inr k) xs"
    by (rule e[symmetric]) simp
  finally show "filter (\<lambda>r. sort_key_of lib r = Inr k) out
                = filter (\<lambda>r. sort_key_of lib r = Inr k) xs" .
qed

lemma select_records_sorted:
  assumes "cutoff_of now days = Inr cutoff"
    and "select_records lib now days (map JDict ds) = Inr out"
  shows "sort_records lib (filter (\<lambda>d. keep_record lib cutoff d = Inr True) ds) = Inr out"
proof -
  from assms obtain filtered where f: "filter_loop lib cutoff [] (map JDict ds) = Inr filtered"
      and s: "sort_records lib filtered = Inr out"
    by (auto simp: select_records_def split: sum.splits)
  from filter_loop_Inr[OF f] obtain ds' where ds': "map JDict ds = map JDict ds'"
      "filtered = filter (\<lambda>d. keep_record lib cutoff d = Inr True) ds'" by auto
  have "inj JDict" by (simp add: inj_def)
  with ds'(1) have "ds = ds'" by (simp add: inj_map_eq_map)
  with ds'(2) s show ?thesis by simp
qed

text \<open>
  C3. The records that a run selects are the records that the filter loop kept,
  rearranged in ascending order of the sort key, and the records of any one key keep
  the order they had in the fetched list. The key is parse_date of the \<^verbatim>\<open>discovered\<close>
  field when that is true, else of the \<^verbatim>\<open>attackdate\<close> field, and \<^verbatim>\<open>datetime.max\<close> when
  that gives none; the \<^verbatim>\<open>date\<close> field does not enter it. After a record with the key
  \<^verbatim>\<open>datetime.max\<close> no record with a smaller key follows. The same holds of the sort on
  any list on which it returns, and on the records that the loop kept it returns.
\<close>

theorem sort_records_stable:
  "(\<forall>now days cutoff ds out.
       cutoff_of now days = Inr cutoff \<and> select_records lib now days (map JDict ds) = Inr out
       \<longrightarrow> sorted (map (projr \<circ> sort_key_of lib) out)
           \<and> mset out = mset (filter (\<lambda>d. keep_record lib cutoff d = Inr True) ds)
           \<and> (\<forall>k. filter (\<lambda>r. sort_key_of lib r = Inr k) out
                  = filter (\<lambda>r. sort_key_of lib r = Inr k)
                      (filter (\<lambda>d. keep_record lib cutoff d = Inr True) ds))
           \<and> (\<forall>i j. i < j \<and> j < length out \<and> sort_key_of lib (out ! i) = Inr dt_max
                  \<longrightarrow> dt_max \<le> projr (sort_key_of lib (out ! j))))
   \<and> (\<forall>now days recs out. select_records lib now days recs = Inr out
         \<longrightarrow> (\<exists>cutoff ds. cutoff_of now days = Inr cutoff \<and> recs = map JDict ds))
   \<and> (\<forall>out. sort_records lib xs = Inr out \<longrightarrow>
       sorted (map (projr \<circ> sort_key_of lib) out)
       \<and> mset out = mset xs
       \<and> (\<forall>k. filter (\<lambda>r. sort_key_of lib r = Inr k) out
              = filter (\<lambda>r. sort_key_of lib r = Inr k) xs)
       \<and> (\<forall>i j. i < j \<and> j < length out \<and> sort_key_of lib (out ! i) = Inr dt_max
              \<longrightarrow> dt_max \<le> projr (sort_key_of lib (out ! j))))
   \<and> (\<forall>cutoff recs filtered. filter_loop lib cutoff [] recs = Inr filtered
         \<longrightarrow> (\<exists>out. sort_records lib filtered = Inr out))
   \<and> (\<forall>r. sort_key_of lib r =
         (case parse_date lib
                 (if truthy (dict_get r ''discovered'') then dict_get r ''discovered''
                  else if truthy (dict_get r ''attackdate'') then dict_get r ''attackdate''
                  else JStr []) of
            Inl e \<Rightarrow> Inl e
          | Inr None \<Rightarrow> Inr dt_max
          | Inr (Some t) \<Rightarrow> Inr t))
   \<and> (\<forall>r v. sort_key_of lib (dict_set r ''date'' v) = sort_key_of lib r)"
proof -
  have last: "\<And>ys out i j. sort_records lib ys = Inr out \<Longrightarrow>
      i < j \<and> j < length out \<and> sort_key_of lib (out ! i) = Inr dt_max
      \<Longrightarrow> dt_max \<le> projr (sort_key_of lib (out ! j))"
  proof -
    fix ys out i j
    assume s: "sort_records lib ys = Inr out"
      and h: "i < j \<and> j < length out \<and> sort_key_of lib (out ! i) = Inr dt_max"
    have "sorted (map (projr \<circ> sort_key_of lib) out)" by (rule sort_records_props(1)[OF s])
    then have "map (projr \<circ> sort_key_of lib) out ! i \<le> map (projr \<circ> sort_key_of lib) out ! j"
      using h by (intro sorted_nth_mono) auto
    with h show "dt_max \<le> projr (sort_key_of lib (out ! j))" by simp
  qed
  have a: "\<forall>now days cutoff ds out.
       cutoff_of now days = Inr cutoff \<and> select_records lib now days (map JDict ds) = Inr out
       \<longrightarrow> sorted (map (projr \<circ> sort_key_of lib) out)
           \<and> mset out = mset (filter (\<lambda>d. keep_record lib cutoff d = Inr True) ds)
           \<and> (\<forall>k. filter (\<lambda>r. sort_key_of lib r = Inr k) out
                  = filter (\<lambda>r. sort_key_of lib r = Inr k)
                      (filter (\<lambda>d. keep_record lib cutoff d = Inr True) ds))
           \<and> (\<forall>i j. i < j \<and> j < length out \<and> sort_key_of lib (out ! i) = Inr dt_max
                  \<longrightarrow> dt_max \<le> projr (sort_key_of lib (out ! j)))"
  proof (intro allI impI)
    fix now days cutoff ds out
    assume h: "cutoff_of now days = Inr cutoff
               \<and> select_records lib now days (map JDict ds) = Inr out"
    then have s: "sort_records lib (filter (\<lambda>d. keep_record lib cutoff d = Inr True) ds) = Inr out"
      using select_records_sorted by blast
    show "sorted (map (projr \<circ> sort_key_of lib) out)
           \<and> mset out = mset (filter (\<lambda>d. keep_record lib cutoff d = Inr True) ds)
           \<and> (\<forall>k. filter (\<lambda>r. sort_key_of lib r = Inr k) out
                  = filter (\<lambda>r. sort_key_of lib r = Inr k)
                      (filter (\<lambda>d. keep_record lib cutoff d = Inr True) ds))
           \<and> (\<forall>i j. i < j \<and> j < length out \<and> sort_key_of lib (out ! i) = Inr dt_max
                  \<longrightarrow> dt_max \<le> projr (sort_key_of lib (out ! j)))"
      using sort_records_props[OF s] last[OF s] by blast
  qed
  have b: "\<forall>now days recs out. select_records lib now days recs = Inr out
         \<longrightarrow> (\<exists>cutoff ds. cutoff_of now days = Inr cutoff \<and> recs = map JDict ds)"
    using select_records_Inr by blast
  have c: "\<forall>out. sort_records lib xs = Inr out \<longrightarrow>
       sorted (map (projr \<circ> sort_key_of lib) out)
       \<and> mset out = mset xs
       \<and> (\<forall>k. filter (\<lambda>r. sort_key_of lib r = Inr k) out
              = filter (\<lambda>r. sort_key_of lib r = Inr k) xs)
       \<and> (\<forall>i j. i < j \<and> j < length out \<and> sort_key_of lib (out ! i) = Inr dt_max
              \<longrightarrow> dt_max \<le> projr (sort_key_of lib (out ! j)))"
    using sort_records_props[of lib xs] last[of xs] by blast
  have d: "\<forall>cutoff recs filtered. filter_loop lib cutoff [] recs = Inr filtered
         \<longrightarrow> (\<exists>out. sort_records lib filtered = Inr out)"
    using sort_after_filter by blast
  have e: "\<forall>r. sort_key_of lib r =
         (case parse_date lib
                 (if truthy (dict_get r ''discovered'') then dict_get r ''discovered''
                  else if truthy (dict_get r ''attackdate'') then dict_get r ''attackdate''
                  else JStr []) of
            Inl e \<Rightarrow> Inl e
          | Inr None \<Rightarrow> Inr dt_max
          | Inr (Some t) \<Rightarrow> Inr t)"
    by (simp add: sort_key_of_def py_or_def)
  have f: "\<forall>r v. sort_key_of lib (dict_set r ''date'' v) = sort_key_of lib r"
    by (simp add: sort_key_of_ignores_date)
  from a b c d e f show ?thesis by (intro conjI)
qed


theorem sort_records_stable_witness:
  "select_records sample_lib 63872496000000000 14
     [JDict [(''country'', JStr ''DE''), (''discovered'', JStr ''2025-01-15'')],
      JDict [(''country'', JStr ''US''), (''discovered'', JStr ''2025-01-15'')],
      JDict [(''country'', JStr ''US''), (''date'', JStr ''2025-01-15'')],
      JDict [(''country'', JStr ''US''), (''attackdate'', JStr ''2025-01-01T00:00:00Z'')],
      JDict [(''country'', JStr ''US''), (''discovered'', JStr ''2025-01-01T02:00:00+02:00'')]]
   = Inr [[(''country'', JStr ''US''), (''attackdate'', JStr ''2025-01-01T00:00:00Z'')],
          [(''country'', JStr ''US''), (''discovered'', JStr ''2025-01-01T02:00:00+02:00'')],
          [(''country'', JStr ''US''), (''discovered'', JStr ''2025-01-15'')],
          [(''country'', JStr ''US''), (''date'', JStr ''2025-01-15'')]]
   \<and> filter (\<lambda>r. sort_key_of sample_lib r = Inr 63871286400000000)
        [[(''country'', JStr ''US''), (''attackdate'', JStr ''2025-01-01T00:00:00Z'')],
         [(''country'', JStr ''US''), (''discovered'', JStr ''2025-01-01T02:00:00+02:00'')],
         [(''country'', JStr ''US''), (''discovered'', JStr ''2025-01-15'')],
         [(''country'', JStr ''US''), (''date'', JStr ''2025-01-15'')]]
     = [[(''country'', JStr ''US''), (''attackdate'', JStr ''2025-01-01T00:00:00Z'')],
        [(''country'', JStr ''US''), (''discovered'', JStr ''2025-01-01T02:00:00+02:00'')]]
   \<and> sort_key_of sample_lib [(''country'', JStr ''US''), (''date'', JStr ''2025-01-15'')]
       = Inr dt_max"
proof -
  let ?de = "[(''country'', JStr ''DE''), (''discovered'', JStr ''2025-01-15'')]"
  let ?r1 = "[(''country'', JStr ''US''), (''discovered'', JStr ''2025-01-15'')]"
  let ?r3 = "[(''country'', JStr ''US''), (''date'', JStr ''2025-01-15'')]"
  let ?r2 = "[(''country'', JStr ''US''), (''attackdate'', JStr ''2025-01-01T00:00:00Z'')]"
  let ?r4 = "[(''country'', JStr ''US''), (''discovered'', JStr ''2025-01-01T02:00:00+02:00'')]"
  let ?c = "63871286400000000 :: int"
  have p15: "parse_date sample_lib (JStr ''2025-01-15'') = Inr (Some 63872496000000000)"
    by (simp add: parse_date_def py_strip_def py_isspace_def replace_z_def py_endswith_chr_def
        iso_attempt_def sample_lib_def)
  have p02: "parse_date sample_lib (JStr ''2025-01-01T02:00:00+02:00'') = Inr (Some ?c)"
    by (simp add: parse_date_def py_strip_def py_isspace_def replace_z_def py_endswith_chr_def
        iso_attempt_def sample_lib_def in_range_def dt_max_def)
  note get = dict_get_Cons dict_get_def dict_get_default_def py_or_def
  have us: "''US'' \<in> set US_COUNTRIES" "''DE'' \<notin> set US_COUNTRIES"
    by (simp_all add: US_COUNTRIES_def)
  have cs: "country_of ?de = Inr ''DE''" "country_of ?r1 = Inr ''US''" "country_of ?r2 = Inr ''US''"
      "country_of ?r3 = Inr ''US''" "country_of ?r4 = Inr ''US''"
    by (simp_all add: country_of_def get py_upper_def py_upper_chr_def)
  have ds: "date_s ?r1 = JStr ''2025-01-15''" "date_s ?r3 = JStr ''2025-01-15''"
      "date_s ?r2 = JStr ''2025-01-01T00:00:00Z''"
      "date_s ?r4 = JStr ''2025-01-01T02:00:00+02:00''"
    by (simp_all add: date_s_def get)
  have k: "keep_record sample_lib ?c ?de = Inr False" "keep_record sample_lib ?c ?r1 = Inr True"
      "keep_record sample_lib ?c ?r3 = Inr True" "keep_record sample_lib ?c ?r2 = Inr True"
      "keep_record sample_lib ?c ?r4 = Inr True"
    by (simp_all add: keep_record_def cs us ds p15 p02 sample_parse_z)
  have sk: "sort_key_of sample_lib ?r1 = Inr 63872496000000000"
      "sort_key_of sample_lib ?r2 = Inr ?c" "sort_key_of sample_lib ?r4 = Inr ?c"
    using p15 p02 sample_parse_z by (simp_all add: sort_key_of_def get)
  have sk3: "sort_key_of sample_lib ?r3 = Inr dt_max"
    by (simp add: sort_key_of_def get parse_date_def)
  have co: "cutoff_of 63872496000000000 14 = Inr ?c"
    by (simp add: cutoff_of_def in_range_def dt_max_def Let_def)
  have s: "select_records sample_lib 63872496000000000 14
             (map JDict [?de, ?r1, ?r3, ?r2, ?r4]) = Inr [?r2, ?r4, ?r1, ?r3]"
    by (simp add: select_records_def co k sort_records_def sk sk3 dt_max_def)
  from sort_records_stable[of sample_lib] co s
  have "filter (\<lambda>r. sort_key_of sample_lib r = Inr ?c) [?r2, ?r4, ?r1, ?r3]
          = filter (\<lambda>r. sort_key_of sample_lib r = Inr ?c)
              (filter (\<lambda>d. keep_record sample_lib ?c d = Inr True) [?de, ?r1, ?r3, ?r2, ?r4])"
    by blast
  also have "\<dots> = [?r2, ?r4]"
    by (simp add: k sk sk3 dt_max_def)
  finally have f: "filter (\<lambda>r. sort_key_of sample_lib r = Inr ?c) [?r2, ?r4, ?r1, ?r3]
                     = [?r2, ?r4]" .
  from s f sk3 show ?thesis by simp
qed

end
